theory Spec2Isabelle
  imports Main
begin

section \<open>Python string operations used by fwupd.py\<close>

text \<open>
  Text is modelled as \<open>string\<close>, one \<open>char\<close> per character. The character
  operations below are exact on ASCII text, which is what Android property files,
  \<open>/proc/bootconfig\<close> and the output of \<open>binder-call\<close> consist of.
\<close>

text \<open>\<open>s.startswith(p)\<close>\<close>

fun startswith :: "string \<Rightarrow> string \<Rightarrow> bool" where
  "startswith s [] = True"
| "startswith [] (p # ps) = False"
| "startswith (c # cs) (p # ps) = (c = p \<and> startswith cs ps)"

text \<open>\<open>sub in s\<close>\<close>

fun contains :: "string \<Rightarrow> string \<Rightarrow> bool" where
  "contains [] sub = startswith [] sub"
| "contains (c # cs) sub = (startswith (c # cs) sub \<or> contains cs sub)"

text \<open>\<open>s.split(sep)\<close> for a separator of one character: the result is never empty.\<close>

fun split_on :: "char \<Rightarrow> string \<Rightarrow> string list" where
  "split_on sep [] = [[]]"
| "split_on sep (c # cs) =
     (if c = sep then [] # split_on sep cs
      else (case split_on sep cs of
              [] \<Rightarrow> [[c]]
            | f # fs \<Rightarrow> (c # f) # fs))"

text \<open>The characters \<open>str.strip()\<close> removes: ASCII white space, as \<open>str.isspace\<close> has it.\<close>

definition isspace :: "char \<Rightarrow> bool" where
  "isspace c \<longleftrightarrow> c \<in> set [CHR '' '', CHR 0x09, CHR 0x0A, CHR 0x0B, CHR 0x0C, CHR 0x0D,
                           CHR 0x1C, CHR 0x1D, CHR 0x1E, CHR 0x1F]"

definition strip_where :: "(char \<Rightarrow> bool) \<Rightarrow> string \<Rightarrow> string" where
  "strip_where P s = rev (dropWhile P (rev (dropWhile P s)))"

text \<open>\<open>s.strip()\<close>\<close>

definition strip :: "string \<Rightarrow> string" where
  "strip s = strip_where isspace s"

text \<open>\<open>s.strip(chars)\<close>\<close>

definition strip_chars :: "string \<Rightarrow> string \<Rightarrow> string" where
  "strip_chars chars s = strip_where (\<lambda>c. c \<in> set chars) s"

definition lower_letters :: string where
  "lower_letters = ''abcdefghijklmnopqrstuvwxyz''"

definition upper_letters :: string where
  "upper_letters = ''ABCDEFGHIJKLMNOPQRSTUVWXYZ''"

definition upper_char :: "char \<Rightarrow> char" where
  "upper_char c = (case map_of (zip lower_letters upper_letters) c of
                     Some u \<Rightarrow> u | None \<Rightarrow> c)"

definition lower_char :: "char \<Rightarrow> char" where
  "lower_char c = (case map_of (zip upper_letters lower_letters) c of
                     Some l \<Rightarrow> l | None \<Rightarrow> c)"

text \<open>\<open>s.upper()\<close>\<close>

definition upper :: "string \<Rightarrow> string" where
  "upper s = map upper_char s"

text \<open>\<open>s.capitalize()\<close>: the first character upper-cased, the rest lower-cased.\<close>

fun capitalize :: "string \<Rightarrow> string" where
  "capitalize [] = []"
| "capitalize (c # cs) = upper_char c # map lower_char cs"

text \<open>
  A text file opened with \<open>open(path, 'r')\<close> translates \<open>\r\n\<close> and a lone
  \<open>\r\<close> to \<open>\n\<close>, and iterating over it yields the lines with their
  terminating \<open>\n\<close> kept.
\<close>

fun universal_newlines :: "string \<Rightarrow> string" where
  "universal_newlines [] = []"
| "universal_newlines [c] = (if c = CHR 0x0D then [CHR 0x0A] else [c])"
| "universal_newlines (c # d # cs) =
     (if c = CHR 0x0D \<and> d = CHR 0x0A then CHR 0x0A # universal_newlines cs
      else if c = CHR 0x0D then CHR 0x0A # universal_newlines (d # cs)
      else c # universal_newlines (d # cs))"

fun lines_keepends :: "string \<Rightarrow> string list" where
  "lines_keepends [] = []"
| "lines_keepends (c # cs) =
     (if c = CHR 0x0A then [c] # lines_keepends cs
      else (case lines_keepends cs of
              [] \<Rightarrow> [[c]]
            | l # ls \<Rightarrow> (c # l) # ls))"

definition file_lines :: "string \<Rightarrow> string list" where
  "file_lines content = lines_keepends (universal_newlines content)"


section \<open>The environment and the errors\<close>

text \<open>
  A path of the file system is absent (\<open>None\<close>), present but not to be opened
  (\<open>Unreadable\<close>: \<open>open\<close> raises, for want of permission say), or a readable
  text file.
\<close>

datatype fnode = Unreadable | Text string

type_synonym filesystem = "string \<rightharpoonup> fnode"

datatype error =
    FileNotFoundError string
  | OSError string
  | IndexError
  | ValueError
  | UnboundLocalError string

text \<open>\<open>os.path.exists(path)\<close>\<close>

definition path_exists :: "filesystem \<Rightarrow> string \<Rightarrow> bool" where
  "path_exists fs path = (fs path \<noteq> None)"

text \<open>\<open>open(path, 'r')\<close> followed by reading all of its lines.\<close>

definition open_lines :: "filesystem \<Rightarrow> string \<Rightarrow> error + string list" where
  "open_lines fs path =
     (case fs path of
        None \<Rightarrow> Inl (FileNotFoundError path)
      | Some Unreadable \<Rightarrow> Inl (OSError path)
      | Some (Text content) \<Rightarrow> Inr (file_lines content))"


section \<open>extract_prop\<close>

definition prop_files :: "string list" where
  "prop_files =
     [''/var/lib/lxc/android/rootfs/vendor/build.prop'',
      ''/android/vendor/build.prop'',
      ''/vendor/build.prop'',
      ''/var/lib/lxc/android/rootfs/odm/etc/build.prop'',
      ''/android/odm/etc/build.prop'',
      ''/odm/etc/build.prop'',
      ''/vendor/odm_dlkm/etc/build.prop'']"

text \<open>
  The loop \<open>for file in prop_files: if os.path.exists(file): ... break\<close>, as the
  value the loop variable \<open>file\<close> has after it: the first existing path, or the last
  path of the list when the loop runs to its end. The second argument is the value of
  \<open>file\<close> before the remaining iterations (\<open>None\<close>: not yet bound).
\<close>

fun select_file :: "filesystem \<Rightarrow> string option \<Rightarrow> string list \<Rightarrow> string option" where
  "select_file fs cur [] = cur"
| "select_file fs cur (file # rest) =
     (if path_exists fs file then Some file else select_file fs (Some file) rest)"

text \<open>
  The loop \<open>for line in f: if line.startswith(prop): return line.split('=')[1].strip()\<close>
  followed by \<open>return ''\<close>.
\<close>

fun scan_prop :: "string \<Rightarrow> string list \<Rightarrow> error + string" where
  "scan_prop prop [] = Inr []"
| "scan_prop prop (line # rest) =
     (if startswith line prop then
        (case split_on CHR ''='' line of
           _ # v # _ \<Rightarrow> Inr (strip v)
         | _ \<Rightarrow> Inl IndexError)
      else scan_prop prop rest)"

definition extract_prop :: "filesystem \<Rightarrow> string \<Rightarrow> error + string" where
  "extract_prop fs prop =
     (case select_file fs None prop_files of
        None \<Rightarrow> Inl (UnboundLocalError ''file'')
      | Some file \<Rightarrow>
          (case open_lines fs file of
             Inl e \<Rightarrow> Inl e
           | Inr ls \<Rightarrow> scan_prop prop ls))"


section \<open>Device descriptors and the property table\<close>

text \<open>\<open>Variant('s', v)\<close> and \<open>Variant('t', n)\<close>; a device is a dict from keys to variants.\<close>

datatype variant = VarS string | VarT nat

type_synonym device = "(string \<times> variant) list"

text \<open>
  \<open>self.props\<close>, with the keys of the dict literal in \<open>__init__\<close> as fields.
\<close>

record props =
  DaemonVersion :: string
  HostBkc :: string
  HostVendor :: string
  HostProduct :: string
  HostMachineId :: string
  HostSecurityId :: string
  Tainted :: bool
  Interactive :: bool
  Status :: nat
  Percentage :: nat
  BatteryLevel :: nat
  OnlyTrusted :: bool
  Devices :: "device list"
  Plugins :: "device list"

definition init_props :: props where
  "init_props =
     \<lparr> DaemonVersion = ''1.9.12'', HostBkc = [], HostVendor = [], HostProduct = [],
       HostMachineId = [], HostSecurityId = ''1'', Tainted = False, Interactive = False,
       Status = 1, Percentage = 0, BatteryLevel = 101, OnlyTrusted = True,
       Devices = [], Plugins = [[(''Name'', VarS ''hybris'')]] \<rparr>"

text \<open>
  What the \<open>try\<close> block around \<open>GetModems()\<close> of \<open>org.ofono.Manager\<close> meets:
  an exception (one of the three D-Bus calls raises, or the reply is not a list of pairs
  to unpack), or a list of pairs of an object path and a dict of properties.
\<close>

datatype telephony = DBusFailure | Modems "(string \<times> (string \<times> string) list) list"

text \<open>
  The world outside the process: the file system, the telephony service, and what
  \<open>os.popen(command).read()\<close> returns for each command line.
\<close>

record env =
  env_files :: filesystem
  env_ofono :: telephony
  env_popen :: "string \<Rightarrow> string"


section \<open>set_props: host properties and the boot configuration\<close>

text \<open>\<open>open(path, 'r').read()\<close>\<close>

definition open_read :: "filesystem \<Rightarrow> string \<Rightarrow> error + string" where
  "open_read fs path =
     (case fs path of
        None \<Rightarrow> Inl (FileNotFoundError path)
      | Some Unreadable \<Rightarrow> Inl (OSError path)
      | Some (Text content) \<Rightarrow> Inr (universal_newlines content))"

definition read_machine_id :: "filesystem \<Rightarrow> error + string" where
  "read_machine_id fs =
     (if path_exists fs ''/etc/machine-id'' then open_read fs ''/etc/machine-id''
      else Inr [])"

text \<open>
  A local variable of \<open>set_props\<close> that some paths never assign is an
  \<open>option\<close>: \<open>None\<close> while it is unbound. Reading it then raises
  \<open>UnboundLocalError\<close>.
\<close>

definition read_local :: "string \<Rightarrow> 'a option \<Rightarrow> error + 'a" where
  "read_local name v = (case v of None \<Rightarrow> Inl (UnboundLocalError name) | Some x \<Rightarrow> Inr x)"

text \<open>
  \<open>parts = line.split('='); if len(parts) == 2: var = parts[1].strip().strip('"')\<close>,
  as the new value of \<open>var\<close>.
\<close>

definition assign_second_field :: "string \<Rightarrow> string option \<Rightarrow> string option" where
  "assign_second_field line var =
     (case split_on CHR ''='' line of
        [_, v] \<Rightarrow> Some (strip_chars [CHR 0x22] (strip v))
      | _ \<Rightarrow> var)"

text \<open>
  One iteration of the loop over \<open>/proc/bootconfig\<close>, on the pair of the locals
  \<open>bootloader\<close> and \<open>bootloader_serialno\<close>.
\<close>

definition bootconfig_line ::
  "string option \<times> string option \<Rightarrow> string \<Rightarrow> string option \<times> string option" where
  "bootconfig_line vars line =
     (let bootloader = (if contains line ''androidboot.bootloader''
                        then assign_second_field line (fst vars) else fst vars);
          bootloader_serialno = (if contains line ''androidboot.serialno''
                                 then assign_second_field line (snd vars) else snd vars)
      in (bootloader, bootloader_serialno))"

text \<open>
  The \<open>try\<close> block reading \<open>/proc/bootconfig\<close> and its handler, which asks
  \<open>extract_prop\<close> for \<open>ro.bootloader\<close> (an exception of the handler propagates).
\<close>

definition read_bootconfig :: "filesystem \<Rightarrow> error + (string option \<times> string option)" where
  "read_bootconfig fs =
     (case open_lines fs ''/proc/bootconfig'' of
        Inr ls \<Rightarrow> Inr (foldl bootconfig_line (None, None) ls)
      | Inl _ \<Rightarrow>
          (case extract_prop fs ''ro.bootloader'' of
             Inl e \<Rightarrow> Inl e
           | Inr b \<Rightarrow> Inr (Some b, None)))"

definition arr_bootloader :: "string \<Rightarrow> string \<Rightarrow> string \<Rightarrow> device" where
  "arr_bootloader vendor bootloader bootloader_serialno =
     [(''DeviceId'', VarS ''1''),
      (''Name'', VarS bootloader),
      (''Vendor'', VarS (if vendor \<noteq> [] then capitalize vendor @ '' Bootloader'' else [])),
      (''Version'', VarS ''1''),
      (''Plugin'', VarS ''hybris''),
      (''Protocol'', VarS ''hybris''),
      (''Flags'', VarT 2),
      (''Serial'', VarS (if bootloader_serialno \<noteq> [] then bootloader_serialno else []))]"

text \<open>\<open>if bootloader: ... self.props['Devices'].value.append(arr_bootloader)\<close>\<close>

definition add_bootloader ::
  "string \<Rightarrow> string option \<times> string option \<Rightarrow> device list \<Rightarrow> error + device list" where
  "add_bootloader vendor vars devs =
     (case read_local ''bootloader'' (fst vars) of
        Inl e \<Rightarrow> Inl e
      | Inr bootloader \<Rightarrow>
          if bootloader \<noteq> [] then
            (case read_local ''bootloader_serialno'' (snd vars) of
               Inl e \<Rightarrow> Inl e
             | Inr bootloader_serialno \<Rightarrow>
                 Inr (devs @ [arr_bootloader vendor bootloader bootloader_serialno]))
          else Inr devs)"


section \<open>set_props: the modem\<close>

record modem_vars =
  modem_rev :: "string option"
  modem_serial :: "string option"
  modem_ver :: "string option"

text \<open>\<open>if key in properties: var = properties[key]\<close>, as the new value of \<open>var\<close>.\<close>

definition assign_if_present ::
  "(string \<times> string) list \<Rightarrow> string \<Rightarrow> string option \<Rightarrow> string option" where
  "assign_if_present properties key var =
     (case map_of properties key of None \<Rightarrow> var | Some v \<Rightarrow> Some v)"

text \<open>One iteration of \<open>for path, properties in modems\<close>.\<close>

definition modem_record :: "modem_vars \<Rightarrow> string \<times> (string \<times> string) list \<Rightarrow> modem_vars" where
  "modem_record vars rec =
     \<lparr> modem_rev = assign_if_present (snd rec) ''Revision'' (modem_rev vars),
       modem_serial = assign_if_present (snd rec) ''Serial'' (modem_serial vars),
       modem_ver = assign_if_present (snd rec) ''SoftwareVersionNumber'' (modem_ver vars) \<rparr>"

definition no_modem_vars :: modem_vars where
  "no_modem_vars = \<lparr> modem_rev = None, modem_serial = None, modem_ver = None \<rparr>"

text \<open>The \<open>try\<close> block of the telephony query: the flag \<open>ofono\<close> and the locals.\<close>

definition query_modems :: "telephony \<Rightarrow> bool \<times> modem_vars" where
  "query_modems t =
     (case t of
        DBusFailure \<Rightarrow> (False, no_modem_vars)
      | Modems modems \<Rightarrow> (True, foldl modem_record no_modem_vars modems))"

definition arr_modem :: "string \<Rightarrow> string \<Rightarrow> string \<Rightarrow> string \<Rightarrow> device" where
  "arr_modem vendor mrev mver mserial =
     [(''DeviceId'', VarS ''1''),
      (''Name'', VarS mrev),
      (''Vendor'', VarS (if vendor \<noteq> [] then capitalize vendor @ '' Modem'' else [])),
      (''Version'', VarS (if mver \<noteq> [] then mver else ''1'')),
      (''Plugin'', VarS ''hybris''),
      (''Protocol'', VarS ''hybris''),
      (''Flags'', VarT 2),
      (''Serial'', VarS (if mserial \<noteq> [] then mserial else []))]"

text \<open>
  \<open>if ofono: ... self.props['Devices'].value.append(arr_modem)\<close>. The dict literal
  reads \<open>modem_rev\<close>, then \<open>modem_ver\<close>, then \<open>modem_serial\<close>.
\<close>

definition add_modem :: "string \<Rightarrow> bool \<times> modem_vars \<Rightarrow> device list \<Rightarrow> error + device list" where
  "add_modem vendor q devs =
     (if fst q then
        (case read_local ''modem_rev'' (modem_rev (snd q)) of
           Inl e \<Rightarrow> Inl e
         | Inr mrev \<Rightarrow>
             (case read_local ''modem_ver'' (modem_ver (snd q)) of
                Inl e \<Rightarrow> Inl e
              | Inr mver \<Rightarrow>
                  (case read_local ''modem_serial'' (modem_serial (snd q)) of
                     Inl e \<Rightarrow> Inl e
                   | Inr mserial \<Rightarrow> Inr (devs @ [arr_modem vendor mrev mver mserial]))))
      else Inr devs)"


section \<open>set_props: the sensors\<close>

definition sensor_hal :: "string list" where
  "sensor_hal = [''1.0'', ''2.0'', ''2.1'']"

definition sensor_command :: "string \<Rightarrow> string" where
  \<open>sensor_command version =
     ''binder-call -d /dev/hwbinder android.hardware.sensors@'' @ version @
     ''::ISensors/default 1 reply i32 "[ { i32 i32 hstr hstr i32 } ]"''\<close>

text \<open>
  The loop over \<open>sensor_hal\<close>, on the pair of \<open>sensor_out\<close> and the list of the
  command lines given to \<open>os.popen\<close> so far.
\<close>

fun probe_sensors ::
  "(string \<Rightarrow> string) \<Rightarrow> string \<times> string list \<Rightarrow> string list \<Rightarrow> string \<times> string list" where
  "probe_sensors popen st [] = st"
| "probe_sensors popen st (version # rest) =
     (let command = sensor_command version;
          sensor_out = popen command
      in if strip sensor_out \<noteq> [] then (sensor_out, snd st @ [command])
         else probe_sensors popen (sensor_out, snd st @ [command]) rest)"

text \<open>
  The regular expressions the pattern needs: literal text, and one or more characters
  of a class, greedy, inside a capture group or not. \<open>\d\<close> is \<open>Digit\<close> and
  \<open>[^"]\<close> is \<open>NotQuote\<close>.
\<close>

datatype cclass = Digit | NotQuote

fun in_class :: "cclass \<Rightarrow> char \<Rightarrow> bool" where
  "in_class Digit c = (c \<in> set ''0123456789'')"
| "in_class NotQuote c = (c \<noteq> CHR 0x22)"

datatype token = Lit string | Plus cclass | Group_Plus cclass

text \<open>
  \<open>backtrack f n\<close> tries the lengths \<open>n\<close>, \<open>n - 1\<close>, ..., \<open>1\<close> for a greedy
  \<open>+\<close> and keeps the first for which the rest of the pattern matches.
\<close>

fun backtrack :: "(nat \<Rightarrow> 'a option) \<Rightarrow> nat \<Rightarrow> 'a option" where
  "backtrack f 0 = None"
| "backtrack f (Suc k) = (case f (Suc k) of Some r \<Rightarrow> Some r | None \<Rightarrow> backtrack f k)"

text \<open>
  Matching a pattern at the start of a text, as the backtracking matcher of \<open>re\<close>
  does: the captured groups in order and the number of characters matched.
\<close>

fun rmatch :: "token list \<Rightarrow> string \<Rightarrow> (string list \<times> nat) option" where
  "rmatch [] s = Some ([], 0)"
| "rmatch (Lit l # ts) s =
     (if startswith s l
      then map_option (\<lambda>r. (fst r, length l + snd r)) (rmatch ts (drop (length l) s))
      else None)"
| "rmatch (Plus cls # ts) s =
     backtrack (\<lambda>k. map_option (\<lambda>r. (fst r, k + snd r)) (rmatch ts (drop k s)))
       (length (takeWhile (in_class cls) s))"
| "rmatch (Group_Plus cls # ts) s =
     backtrack (\<lambda>k. map_option (\<lambda>r. (take k s # fst r, k + snd r)) (rmatch ts (drop k s)))
       (length (takeWhile (in_class cls) s))"

text \<open>
  \<open>pattern.findall(s)\<close>: the groups of the leftmost match, then the search goes on
  behind it (one character further after an empty match or none).
\<close>

fun findall :: "token list \<Rightarrow> string \<Rightarrow> string list list" where
  "findall pat [] = (case rmatch pat [] of None \<Rightarrow> [] | Some r \<Rightarrow> [fst r])"
| "findall pat (c # cs) =
     (case rmatch pat (c # cs) of
        None \<Rightarrow> findall pat cs
      | Some r \<Rightarrow> fst r # findall pat (drop (snd r - 1) cs))"

text \<open>\<open>re.compile(r'{ (\d+) \d+ "([^"]+)"H "([^"]+)"H (\d+) }')\<close>\<close>

definition sensor_pattern :: "token list" where
  \<open>sensor_pattern =
     [Lit ''{ '', Group_Plus Digit, Lit '' '', Plus Digit, Lit '' "'', Group_Plus NotQuote,
      Lit ''"H "'', Group_Plus NotQuote, Lit ''"H '', Group_Plus Digit, Lit '' }'']\<close>

definition arr_sensor :: "string \<Rightarrow> string \<Rightarrow> string \<Rightarrow> string \<Rightarrow> device" where
  "arr_sensor sensor_id sensor_name sensor_vendor sensor_ver =
     [(''DeviceId'', VarS ''1''),
      (''Name'', VarS sensor_name),
      (''Vendor'', VarS (if sensor_vendor \<noteq> [] then sensor_vendor else [])),
      (''Version'', VarS (if sensor_ver \<noteq> [] then sensor_ver else ''1'')),
      (''Plugin'', VarS ''hybris''),
      (''Protocol'', VarS ''hybris''),
      (''Flags'', VarT 2),
      (''Serial'', VarS (if sensor_id \<noteq> [] then sensor_id else []))]"

text \<open>
  \<open>for match in matches\<close>: the unpacking
  \<open>sensor_id, sensor_name, sensor_vendor, sensor_ver = match\<close> raises
  \<open>ValueError\<close> on a tuple that does not have four components.
\<close>

fun append_sensors :: "string list list \<Rightarrow> device list \<Rightarrow> error + device list" where
  "append_sensors [] devs = Inr devs"
| "append_sensors (m # ms) devs =
     (case m of
        [sensor_id, sensor_name, sensor_vendor, sensor_ver] \<Rightarrow>
          append_sensors ms (devs @ [arr_sensor sensor_id sensor_name sensor_vendor sensor_ver])
      | _ \<Rightarrow> Inl ValueError)"

text \<open>\<open>if sensor_out.strip(): ... if matches: for match in matches: ...\<close>\<close>

definition add_sensors :: "string \<Rightarrow> device list \<Rightarrow> error + device list" where
  "add_sensors sensor_out devs =
     (if strip sensor_out \<noteq> [] then
        (let matches = findall sensor_pattern sensor_out
         in if matches \<noteq> [] then append_sensors matches devs else Inr devs)
      else Inr devs)"


section \<open>set_props and the facade\<close>

text \<open>
  \<open>set_props\<close> on the property table: the updated table and the command lines run
  through \<open>os.popen\<close>, or the exception that leaves the method.
\<close>

definition set_props :: "env \<Rightarrow> props \<Rightarrow> error + (props \<times> string list)" where
  "set_props e p =
     (case extract_prop (env_files e) ''ro.product.vendor.manufacturer'' of
        Inl err \<Rightarrow> Inl err
      | Inr vendor \<Rightarrow>
     (case extract_prop (env_files e) ''ro.product.vendor.name'' of
        Inl err \<Rightarrow> Inl err
      | Inr codename \<Rightarrow>
     (case read_machine_id (env_files e) of
        Inl err \<Rightarrow> Inl err
      | Inr machine_id \<Rightarrow>
     (case read_bootconfig (env_files e) of
        Inl err \<Rightarrow> Inl err
      | Inr vars \<Rightarrow>
     (case add_bootloader vendor vars (Devices p) of
        Inl err \<Rightarrow> Inl err
      | Inr devs1 \<Rightarrow>
     (case add_modem vendor (query_modems (env_ofono e)) devs1 of
        Inl err \<Rightarrow> Inl err
      | Inr devs2 \<Rightarrow>
     (let probe = probe_sensors (env_popen e) ([], []) sensor_hal in
     (case add_sensors (fst probe) devs2 of
        Inl err \<Rightarrow> Inl err
      | Inr devs3 \<Rightarrow>
          Inr (p\<lparr> HostVendor := (if vendor \<noteq> [] then upper vendor else []),
                   HostProduct := (if codename \<noteq> [] then upper codename else []),
                   HostMachineId := machine_id,
                   Devices := devs3 \<rparr>,
               snd probe)))))))))"

text \<open>\<open>FWUPDInterface.__init__\<close>: the initial table, then \<open>set_props\<close>.\<close>

definition startup :: "env \<Rightarrow> error + (props \<times> string list)" where
  "startup e = set_props e init_props"

text \<open>\<open>GetDevices\<close>\<close>

definition GetDevices :: "props \<Rightarrow> device list" where
  "GetDevices p = Devices p"


section \<open>Inputs and notions the properties are stated with\<close>



text \<open>A property file declaring the vendor \<open>acme\<close> and the product \<open>widget\<close>.\<close>

definition acme_build_prop :: string where
  "acme_build_prop =
     ''ro.product.vendor.manufacturer=acme\<newline>ro.product.vendor.name=widget\<newline>''"

text \<open>A boot configuration declaring the bootloader \<open>abl\<close> and the serial \<open>123\<close>.\<close>

definition abl_bootconfig :: string where
  \<open>abl_bootconfig =
     ''androidboot.bootloader = "abl"\<newline>androidboot.serialno = "123"\<newline>''\<close>

text \<open>
  The end-to-end scenario, with the property file at the path \<open>path\<close>: no telephony
  service, and no output of any sensor probe.
\<close>

definition acme_env :: "string \<Rightarrow> env" where
  "acme_env path =
     \<lparr> env_files = [path \<mapsto> Text acme_build_prop, ''/proc/bootconfig'' \<mapsto> Text abl_bootconfig],
       env_ofono = DBusFailure,
       env_popen = (\<lambda>command. []) \<rparr>"

text \<open>
  The same files, with a boot configuration that has a line for the serial number and
  none for the bootloader.
\<close>

definition serial_only_env :: env where
  \<open>serial_only_env =
     \<lparr> env_files = [''/vendor/build.prop'' \<mapsto> Text acme_build_prop,
                    ''/proc/bootconfig'' \<mapsto> Text ''androidboot.serialno = "123"\<newline>''],
       env_ofono = DBusFailure,
       env_popen = (\<lambda>command. []) \<rparr>\<close>


text \<open>
  Two modem records: the first carries all three fields, the second only a revision.
\<close>

definition two_modems :: "(string \<times> (string \<times> string) list) list" where
  "two_modems =
     [(''/ril_0'', [(''Revision'', ''MPSS.1''), (''Serial'', ''86''),
                    (''SoftwareVersionNumber'', ''07'')]),
      (''/ril_1'', [(''Revision'', ''MPSS.2'')])]"

text \<open>
  Probes: one that prints nothing for \<open>1.0\<close> and a record for \<open>2.0\<close>, and one that
  prints nothing for \<open>1.0\<close>, an empty line for \<open>2.0\<close> and a record for \<open>2.1\<close>.
\<close>

definition second_answers :: "string \<Rightarrow> string" where
  \<open>second_answers command =
     (if command = sensor_command ''2.0'' then ''{ 3 0 "Accel"H "Bosch"H 2 }'' else [])\<close>

definition blank_then_sensor :: "string \<Rightarrow> string" where
  \<open>blank_then_sensor command =
     (if command = sensor_command ''2.0'' then ''\<newline>''
      else if command = sensor_command ''2.1'' then ''{ 3 0 "Accel"H "Bosch"H 2 }''
      else [])\<close>

text \<open>
  The value of \<open>key\<close> in the last modem record that carries it, if any record does:
  what "the last record wins" means for one field.
\<close>

definition last_value :: "string \<Rightarrow> (string \<times> (string \<times> string) list) list \<Rightarrow> string option" where
  "last_value key modems =
     (let carrying = filter (\<lambda>rec. map_of (snd rec) key \<noteq> None) modems
      in if carrying = [] then None else map_of (snd (last carrying)) key)"

text \<open>The classes of the capture groups of a pattern, in the order of the groups.\<close>

fun group_classes :: "token list \<Rightarrow> cclass list" where
  "group_classes [] = []"
| "group_classes (Lit l # ts) = group_classes ts"
| "group_classes (Plus cls # ts) = group_classes ts"
| "group_classes (Group_Plus cls # ts) = cls # group_classes ts"


section \<open>Properties of extract_prop\<close>

lemmas string_ops =
  strip_def strip_where_def isspace_def strip_chars_def upper_def upper_char_def lower_char_def
  lower_letters_def upper_letters_def file_lines_def

lemma select_file_absent:
  "\<forall>p\<in>set ps. fs p = None \<Longrightarrow>
     select_file fs cur ps = (if ps = [] then cur else Some (last ps))"
  by (induction ps arbitrary: cur) (auto simp: path_exists_def)

text \<open>
  Claim C1 says that \<open>extract_prop\<close> returns the empty string when none of the
  candidate paths exists. The loop over the candidates leaves \<open>file\<close> at the last
  path, and \<open>open\<close> raises \<open>FileNotFoundError\<close> for it: in every such state of
  the file system, and for every key, the exception leaves \<open>extract_prop\<close>.
\<close>

theorem extract_prop_no_candidate_raises:
  assumes "\<forall>p\<in>set prop_files. fs p = None"
  shows "extract_prop fs prop = Inl (FileNotFoundError ''/vendor/odm_dlkm/etc/build.prop'')"
proof -
  have sel: "select_file fs None prop_files = Some ''/vendor/odm_dlkm/etc/build.prop''"
    using select_file_absent [OF assms, of None] by (simp add: prop_files_def)
  have "fs ''/vendor/odm_dlkm/etc/build.prop'' = None"
    using assms by (simp add: prop_files_def)
  then show ?thesis
    by (simp add: extract_prop_def sel open_lines_def)
qed

theorem extract_prop_no_candidate_raises_witness:
  "extract_prop Map.empty ''ro.product.vendor.manufacturer'' =
     Inl (FileNotFoundError ''/vendor/odm_dlkm/etc/build.prop'')"
  using extract_prop_no_candidate_raises [of Map.empty "''ro.product.vendor.manufacturer''"]
  by simp

lemma split_on_fields:
  "split_on sep s =
     takeWhile (\<lambda>c. c \<noteq> sep) s #
       (if sep \<in> set s then split_on sep (tl (dropWhile (\<lambda>c. c \<noteq> sep) s)) else [])"
  by (induction s) (auto split: list.splits)

lemma split_on_second:
  assumes "sep \<in> set s"
  shows "\<exists>rest. split_on sep s =
           takeWhile (\<lambda>c. c \<noteq> sep) s #
           takeWhile (\<lambda>c. c \<noteq> sep) (tl (dropWhile (\<lambda>c. c \<noteq> sep) s)) # rest"
proof -
  let ?t = "tl (dropWhile (\<lambda>c. c \<noteq> sep) s)"
  have "split_on sep s = takeWhile (\<lambda>c. c \<noteq> sep) s # split_on sep ?t"
    using assms split_on_fields [of sep s] by simp
  moreover obtain r where "split_on sep ?t = takeWhile (\<lambda>c. c \<noteq> sep) ?t # r"
    using split_on_fields [of sep ?t] by blast
  ultimately show ?thesis by simp
qed

lemma scan_prop_find:
  "scan_prop prop ls =
     (case find (\<lambda>l. startswith l prop) ls of
        None \<Rightarrow> Inr []
      | Some line \<Rightarrow>
          (case split_on CHR ''='' line of
             _ # v # _ \<Rightarrow> Inr (strip v)
           | _ \<Rightarrow> Inl IndexError))"
  by (induction ls) auto

text \<open>
  Claim C9, as the code has it: when the file \<open>extract_prop\<close> opens is readable and
  the first of its lines that starts with the key contains \<open>=\<close>, the result is the
  trimmed text between the first \<open>=\<close> of that line and its second \<open>=\<close> (the end
  of the line when there is no second one): the second field of \<open>line.split('=')\<close>.
\<close>

theorem extract_prop_second_field:
  assumes "select_file fs None prop_files = Some file"
    and "fs file = Some (Text content)"
    and "find (\<lambda>l. startswith l prop) (file_lines content) = Some line"
    and "CHR ''='' \<in> set line"
  shows "extract_prop fs prop =
           Inr (strip (takeWhile (\<lambda>c. c \<noteq> CHR ''='')
                  (tl (dropWhile (\<lambda>c. c \<noteq> CHR ''='') line))))"
proof -
  obtain rest where "split_on CHR ''='' line =
      takeWhile (\<lambda>c. c \<noteq> CHR ''='') line #
      takeWhile (\<lambda>c. c \<noteq> CHR ''='') (tl (dropWhile (\<lambda>c. c \<noteq> CHR ''='') line)) # rest"
    using split_on_second [OF assms(4)] by blast
  then show ?thesis
    using assms(1-3) by (simp add: extract_prop_def open_lines_def scan_prop_find)
qed

text \<open>The theorem at a property file declaring the product \<open>widget\<close>.\<close>

theorem extract_prop_second_field_witness:
  "extract_prop [''/vendor/build.prop'' \<mapsto> Text acme_build_prop] ''ro.product.vendor.name''
     = Inr ''widget''"
proof -
  let ?fs = "[''/vendor/build.prop'' \<mapsto> Text acme_build_prop]"
  have 1: "select_file ?fs None prop_files = Some ''/vendor/build.prop''"
    by (simp add: prop_files_def path_exists_def)
  have 2: "?fs ''/vendor/build.prop'' = Some (Text acme_build_prop)"
    by simp
  have 3: "find (\<lambda>l. startswith l ''ro.product.vendor.name'') (file_lines acme_build_prop)
             = Some ''ro.product.vendor.name=widget\<newline>''"
    by (simp add: file_lines_def acme_build_prop_def)
  have 4: "CHR ''='' \<in> set ''ro.product.vendor.name=widget\<newline>''"
    by simp
  have 5: "strip (takeWhile (\<lambda>c. c \<noteq> CHR ''='')
              (tl (dropWhile (\<lambda>c. c \<noteq> CHR ''='') ''ro.product.vendor.name=widget\<newline>'')))
           = ''widget''"
    by (simp add: string_ops)
  show ?thesis
    by (subst 5 [symmetric]) (rule extract_prop_second_field [OF 1 2 3 4])
qed

text \<open>
  Claim C9 as stated fails: for the line \<open>key=a=b\<close> the result is \<open>a\<close>, not the
  remainder \<open>a=b\<close> behind the first \<open>=\<close>.
\<close>

theorem extract_prop_remainder_counterexample:
  "extract_prop [''/vendor/build.prop'' \<mapsto> Text ''key=a=b\<newline>''] ''key'' = Inr ''a'' \<and>
   extract_prop [''/vendor/build.prop'' \<mapsto> Text ''key=a=b\<newline>''] ''key'' \<noteq> Inr ''a=b''"
  by (simp add: extract_prop_def prop_files_def path_exists_def open_lines_def string_ops)


section \<open>The end-to-end scenario\<close>

lemma acme_extract:
  assumes "p \<in> set prop_files"
  shows "extract_prop (env_files (acme_env p)) ''ro.product.vendor.manufacturer'' = Inr ''acme''"
    and "extract_prop (env_files (acme_env p)) ''ro.product.vendor.name'' = Inr ''widget''"
  using assms
  by (auto simp: acme_env_def extract_prop_def prop_files_def path_exists_def open_lines_def
      acme_build_prop_def string_ops)

lemma acme_boot:
  assumes "p \<in> set prop_files"
  shows "read_bootconfig (env_files (acme_env p)) = Inr (Some ''abl'', Some ''123'')"
    and "read_machine_id (env_files (acme_env p)) = Inr []"
  using assms
  by (auto simp: acme_env_def read_bootconfig_def read_machine_id_def prop_files_def
      path_exists_def open_lines_def abl_bootconfig_def string_ops bootconfig_line_def
      assign_second_field_def)

lemma no_sensor_output:
  "probe_sensors (\<lambda>command. []) ([], []) sensor_hal = ([], map sensor_command sensor_hal)"
  by (simp add: sensor_hal_def string_ops)

text \<open>
  Claim C2: the property file (at any one of the candidate paths) declares the vendor
  \<open>acme\<close> and the product \<open>widget\<close>, the boot configuration declares the
  bootloader \<open>abl\<close> and the serial \<open>123\<close>, the telephony service is absent and
  every sensor probe prints nothing. Then the start-up succeeds, \<open>GetDevices\<close> returns
  exactly the one bootloader device, and the host vendor and product read \<open>ACME\<close> and
  \<open>WIDGET\<close>.
\<close>

theorem end_to_end:
  assumes "p \<in> set prop_files"
  shows "\<exists>st cmds. startup (acme_env p) = Inr (st, cmds) \<and>
           GetDevices st =
             [[(''DeviceId'', VarS ''1''), (''Name'', VarS ''abl''),
               (''Vendor'', VarS ''Acme Bootloader''), (''Version'', VarS ''1''),
               (''Plugin'', VarS ''hybris''), (''Protocol'', VarS ''hybris''),
               (''Flags'', VarT 2), (''Serial'', VarS ''123'')]] \<and>
           HostVendor st = ''ACME'' \<and> HostProduct st = ''WIDGET''"
proof -
  have env: "env_ofono (acme_env p) = DBusFailure" "env_popen (acme_env p) = (\<lambda>command. [])"
    by (simp_all add: acme_env_def)
  show ?thesis
    by (simp add: startup_def set_props_def acme_extract [OF assms] acme_boot [OF assms] env
        no_sensor_output add_bootloader_def read_local_def arr_bootloader_def query_modems_def
        add_modem_def add_sensors_def init_props_def GetDevices_def string_ops)
qed

theorem end_to_end_witness:
  "\<exists>st cmds. startup (acme_env ''/vendor/build.prop'') = Inr (st, cmds) \<and>
           GetDevices st =
             [[(''DeviceId'', VarS ''1''), (''Name'', VarS ''abl''),
               (''Vendor'', VarS ''Acme Bootloader''), (''Version'', VarS ''1''),
               (''Plugin'', VarS ''hybris''), (''Protocol'', VarS ''hybris''),
               (''Flags'', VarT 2), (''Serial'', VarS ''123'')]] \<and>
           HostVendor st = ''ACME'' \<and> HostProduct st = ''WIDGET''"
  using end_to_end [of "''/vendor/build.prop''"] by (simp add: prop_files_def)


section \<open>The sensor parser\<close>

lemma backtrack_Some:
  "backtrack f n = Some r \<Longrightarrow> \<exists>k. 1 \<le> k \<and> k \<le> n \<and> f k = Some r"
proof (induction n)
  case 0
  then show ?case by simp
next
  case (Suc n)
  show ?case
  proof (cases "f (Suc n)")
    case None
    with Suc obtain k where "1 \<le> k" "k \<le> n" "f k = Some r" by auto
    then show ?thesis by (intro exI [of _ k]) simp
  next
    case (Some a)
    with Suc.prems have "f (Suc n) = Some r" by simp
    then show ?thesis by (intro exI [of _ "Suc n"]) simp
  qed
qed

lemma take_run:
  assumes "1 \<le> k" and "k \<le> length (takeWhile P s)"
  shows "take k s \<noteq> []" and "\<forall>c\<in>set (take k s). P c"
proof -
  have "take k s = take k (takeWhile P s @ dropWhile P s)" by simp
  also have "\<dots> = take k (takeWhile P s)" using assms(2) by (simp del: takeWhile_dropWhile_id)
  finally have eq: "take k s = take k (takeWhile P s)" .
  show "take k s \<noteq> []" using assms eq by auto
  show "\<forall>c\<in>set (take k s). P c"
  proof
    fix c assume "c \<in> set (take k s)"
    then have "c \<in> set (takeWhile P s)" unfolding eq by (rule in_set_takeD)
    then show "P c" by (rule set_takeWhileD [THEN conjunct2])
  qed
qed

lemma rmatch_groups:
  "rmatch ts s = Some r \<Longrightarrow>
     list_all2 (\<lambda>cls g. g \<noteq> [] \<and> (\<forall>c\<in>set g. in_class cls c)) (group_classes ts) (fst r)"
proof (induction ts arbitrary: s r)
  case Nil
  then show ?case by auto
next
  case (Cons t ts)
  show ?case
  proof (cases t)
    case (Lit l)
    with Cons.prems obtain r' where "rmatch ts (drop (length l) s) = Some r'" "fst r = fst r'"
      by (auto split: if_splits)
    with Cons.IH Lit show ?thesis by auto
  next
    case (Plus cls)
    with Cons.prems obtain k r' where "rmatch ts (drop k s) = Some r'" "fst r = fst r'"
      by (auto dest!: backtrack_Some)
    with Cons.IH Plus show ?thesis by auto
  next
    case (Group_Plus cls)
    with Cons.prems obtain k r' where k: "1 \<le> k" "k \<le> length (takeWhile (in_class cls) s)"
      and r': "rmatch ts (drop k s) = Some r'" "fst r = take k s # fst r'"
      by (auto dest!: backtrack_Some)
    from take_run [OF k] Cons.IH [OF r'(1)] r'(2) Group_Plus show ?thesis by simp
  qed
qed

lemma findall_matches:
  "m \<in> set (findall pat s) \<Longrightarrow> \<exists>s' r. rmatch pat s' = Some r \<and> m = fst r"
proof (induction pat s rule: findall.induct)
  case (1 pat)
  then obtain r where "rmatch pat [] = Some r" "m = fst r"
    by (cases "rmatch pat []") auto
  then show ?case by blast
next
  case (2 pat c cs)
  show ?case
  proof (cases "rmatch pat (c # cs)")
    case None
    with 2 show ?thesis by simp
  next
    case (Some r)
    with 2 have "m = fst r \<or> (\<exists>s' r. rmatch pat s' = Some r \<and> m = fst r)" by auto
    with Some show ?thesis by blast
  qed
qed

lemma sensor_groups: "group_classes sensor_pattern = [Digit, NotQuote, NotQuote, Digit]"
  by (simp add: sensor_pattern_def)

lemma sensor_match_shape:
  assumes "m \<in> set (findall sensor_pattern sensor_out)"
  shows "\<exists>sensor_id sensor_name sensor_vendor sensor_ver.
           m = [sensor_id, sensor_name, sensor_vendor, sensor_ver] \<and>
           sensor_ver \<noteq> [] \<and> (\<forall>c\<in>set sensor_ver. in_class Digit c)"
proof -
  from findall_matches [OF assms] obtain s' r
    where "rmatch sensor_pattern s' = Some r" "m = fst r" by blast
  from rmatch_groups [OF this(1)] this(2)
  have "list_all2 (\<lambda>cls g. g \<noteq> [] \<and> (\<forall>c\<in>set g. in_class cls c))
          [Digit, NotQuote, NotQuote, Digit] m"
    by (simp add: sensor_groups)
  then show ?thesis by (auto simp: list_all2_Cons1)
qed

lemma append_sensors_total:
  "\<forall>m\<in>set ms. length m = 4 \<Longrightarrow>
     append_sensors ms devs =
       Inr (devs @ map (\<lambda>m. arr_sensor (m ! 0) (m ! 1) (m ! 2) (m ! 3)) ms)"
proof (induction ms arbitrary: devs)
  case Nil
  then show ?case by simp
next
  case (Cons m ms)
  from Cons.prems have "length m = Suc (Suc (Suc (Suc 0)))" by simp
  then obtain a b c d where m: "m = [a, b, c, d]"
    by (auto simp: length_Suc_conv)
  show ?case using Cons by (simp add: m)
qed

lemma add_sensors_append:
  "\<exists>ds. add_sensors sensor_out devs = Inr (devs @ ds) \<and> add_sensors sensor_out [] = Inr ds"
proof -
  have "\<forall>m\<in>set (findall sensor_pattern sensor_out). length m = 4"
    using sensor_match_shape by fastforce
  then show ?thesis
    by (simp add: add_sensors_def Let_def append_sensors_total)
qed

text \<open>
  Claim C6, as the code has it: the record \<open>{ 3 0 "Accel"H "Bosch"H 2 }\<close> yields
  exactly one device, with the name \<open>Accel\<close>, the vendor \<open>Bosch\<close> and the version
  \<open>2\<close>; the sensor's number \<open>3\<close> is its serial, and its id is the constant
  \<open>1\<close> of every device.
\<close>

theorem sensor_record_device:
  \<open>add_sensors ''{ 3 0 "Accel"H "Bosch"H 2 }'' [] =
     Inr [[(''DeviceId'', VarS ''1''), (''Name'', VarS ''Accel''), (''Vendor'', VarS ''Bosch''),
           (''Version'', VarS ''2''), (''Plugin'', VarS ''hybris''),
           (''Protocol'', VarS ''hybris''), (''Flags'', VarT 2), (''Serial'', VarS ''3'')]]\<close>
  by (simp add: add_sensors_def sensor_pattern_def arr_sensor_def string_ops)

text \<open>Claim C6 as stated fails: the parser yields no single device whose id is \<open>3\<close>.\<close>

theorem sensor_record_id_counterexample:
  \<open>\<not> (\<exists>d. add_sensors ''{ 3 0 "Accel"H "Bosch"H 2 }'' [] = Inr [d] \<and>
          map_of d ''DeviceId'' = Some (VarS ''3''))\<close>
  by (simp add: add_sensors_def sensor_pattern_def arr_sensor_def string_ops)

text \<open>
  Claim C10: every match of the sensor pattern, in any text, has four groups, and the
  last of them, the version, is a non-empty string of digits. So the test
  \<open>sensor_ver != ''\<close> never takes its \<open>'1'\<close> branch, and the version of the
  device built from the match is the captured group itself.
\<close>

theorem sensor_version_is_captured_digits:
  assumes "m \<in> set (findall sensor_pattern sensor_out)"
  shows "\<exists>sensor_id sensor_name sensor_vendor sensor_ver.
           m = [sensor_id, sensor_name, sensor_vendor, sensor_ver] \<and>
           sensor_ver \<noteq> [] \<and> (\<forall>c\<in>set sensor_ver. in_class Digit c) \<and>
           map_of (arr_sensor sensor_id sensor_name sensor_vendor sensor_ver) ''Version''
             = Some (VarS sensor_ver)"
  using sensor_match_shape [OF assms] by (auto simp: arr_sensor_def)

theorem sensor_version_is_captured_digits_witness:
  \<open>[''12'', ''Gyro'', ''ST'', ''45''] \<in> set (findall sensor_pattern ''{ 12 7 "Gyro"H "ST"H 45 }'') \<and>
   map_of (arr_sensor ''12'' ''Gyro'' ''ST'' ''45'') ''Version'' = Some (VarS ''45'')\<close>
proof -
  have h: \<open>[''12'', ''Gyro'', ''ST'', ''45''] \<in> set (findall sensor_pattern ''{ 12 7 "Gyro"H "ST"H 45 }'')\<close>
    by (simp add: sensor_pattern_def)
  from sensor_version_is_captured_digits [OF h] show ?thesis
    using h by auto
qed


section \<open>The sensor probe\<close>

lemma sensor_command_neq [simp]:
  "sensor_command ''1.0'' \<noteq> sensor_command ''2.0''"
  "sensor_command ''1.0'' \<noteq> sensor_command ''2.1''"
  "sensor_command ''2.0'' \<noteq> sensor_command ''2.1''"
  "sensor_command ''2.0'' \<noteq> sensor_command ''1.0''"
  "sensor_command ''2.1'' \<noteq> sensor_command ''1.0''"
  "sensor_command ''2.1'' \<noteq> sensor_command ''2.0''"
  by (simp_all add: sensor_command_def)

lemma probe_sensors_cases:
  "probe_sensors popen ([], []) sensor_hal =
     (if strip (popen (sensor_command ''1.0'')) \<noteq> []
        then (popen (sensor_command ''1.0''), [sensor_command ''1.0''])
      else if strip (popen (sensor_command ''2.0'')) \<noteq> []
        then (popen (sensor_command ''2.0''), [sensor_command ''1.0'', sensor_command ''2.0''])
      else (popen (sensor_command ''2.1''),
            [sensor_command ''1.0'', sensor_command ''2.0'', sensor_command ''2.1'']))"
  by (simp add: sensor_hal_def Let_def)

lemma probe_sensors_first:
  "take 1 (snd (probe_sensors popen ([], []) sensor_hal)) = [sensor_command ''1.0'']"
  by (simp add: sensor_hal_def Let_def)

text \<open>
  Claim C7, as the code has it: the versions \<open>1.0\<close>, \<open>2.0\<close>, \<open>2.1\<close> are
  probed in this order, and the loop stops at the first whose output has a character
  that is not white space (\<open>sensor_out.strip()\<close> is not empty). The result is that
  output and the commands run so far; after three blank outputs no sensor device is
  added.
\<close>

theorem sensor_probe_first_answer_wins:
  "probe_sensors popen ([], []) sensor_hal =
     (if strip (popen (sensor_command ''1.0'')) \<noteq> []
        then (popen (sensor_command ''1.0''), [sensor_command ''1.0''])
      else if strip (popen (sensor_command ''2.0'')) \<noteq> []
        then (popen (sensor_command ''2.0''), [sensor_command ''1.0'', sensor_command ''2.0''])
      else (popen (sensor_command ''2.1''),
            [sensor_command ''1.0'', sensor_command ''2.0'', sensor_command ''2.1'']))
   \<and> (strip (popen (sensor_command ''1.0'')) = [] \<and>
      strip (popen (sensor_command ''2.0'')) = [] \<and>
      strip (popen (sensor_command ''2.1'')) = [] \<longrightarrow>
        add_sensors (fst (probe_sensors popen ([], []) sensor_hal)) devs = Inr devs)"
  by (simp add: probe_sensors_cases add_sensors_def)

text \<open>
  With nothing printed for \<open>1.0\<close> and a record for \<open>2.0\<close>, the probe returns the
  output of \<open>2.0\<close> and never runs \<open>2.1\<close>; with nothing printed at all, no device
  is added.
\<close>

theorem sensor_probe_first_answer_wins_witness:
  \<open>probe_sensors second_answers ([], []) sensor_hal =
     (''{ 3 0 "Accel"H "Bosch"H 2 }'', [sensor_command ''1.0'', sensor_command ''2.0'']) \<and>
   add_sensors (fst (probe_sensors (\<lambda>command. []) ([], []) sensor_hal)) [] = Inr []\<close>
proof -
  have a: "strip (second_answers (sensor_command ''1.0'')) = []"
    by (simp add: second_answers_def string_ops)
  have b: "strip (second_answers (sensor_command ''2.0'')) \<noteq> []"
    by (simp add: second_answers_def string_ops)
  have c: \<open>second_answers (sensor_command ''2.0'') = ''{ 3 0 "Accel"H "Bosch"H 2 }''\<close>
    by (simp add: second_answers_def)
  have 1: \<open>probe_sensors second_answers ([], []) sensor_hal =
     (''{ 3 0 "Accel"H "Bosch"H 2 }'', [sensor_command ''1.0'', sensor_command ''2.0''])\<close>
    using sensor_probe_first_answer_wins [of second_answers "[]", THEN conjunct1] a b c
    by simp
  have 2: "add_sensors (fst (probe_sensors (\<lambda>command. []) ([], []) sensor_hal)) [] = Inr []"
    by (rule sensor_probe_first_answer_wins [of "\<lambda>command. []" "[]", THEN conjunct2, THEN mp])
       (simp add: string_ops)
  show ?thesis by (rule conjI [OF 1 2])
qed

text \<open>
  Claim C7 as stated fails: an output that is not empty but blank (here one empty line,
  for \<open>2.0\<close>) does not stop the loop. Version \<open>2.1\<close> is run, and its records
  are the ones parsed.
\<close>

theorem sensor_probe_blank_output_counterexample:
  "blank_then_sensor (sensor_command ''1.0'') = [] \<and>
   blank_then_sensor (sensor_command ''2.0'') \<noteq> [] \<and>
   snd (probe_sensors blank_then_sensor ([], []) sensor_hal) =
     [sensor_command ''1.0'', sensor_command ''2.0'', sensor_command ''2.1''] \<and>
   add_sensors (fst (probe_sensors blank_then_sensor ([], []) sensor_hal)) [] =
     add_sensors (blank_then_sensor (sensor_command ''2.1'')) [] \<and>
   add_sensors (blank_then_sensor (sensor_command ''2.1'')) [] \<noteq> Inr []"
  by (simp add: probe_sensors_cases blank_then_sensor_def add_sensors_def sensor_pattern_def
      string_ops)


section \<open>The boot configuration\<close>

lemma bootconfig_no_name:
  "\<forall>line\<in>set ls. \<not> contains line ''androidboot.bootloader'' \<Longrightarrow>
     fst (foldl bootconfig_line vars ls) = fst vars"
  by (induction ls arbitrary: vars) (simp_all add: bootconfig_line_def Let_def)

lemma acme_files:
  "extract_prop [''/vendor/build.prop'' \<mapsto> Text acme_build_prop, bc \<mapsto> b]
     ''ro.product.vendor.manufacturer'' = Inr ''acme''"
  "extract_prop [''/vendor/build.prop'' \<mapsto> Text acme_build_prop, bc \<mapsto> b]
     ''ro.product.vendor.name'' = Inr ''widget''"
  if "bc = ''/proc/bootconfig''"
  using that
  by (simp_all add: extract_prop_def prop_files_def path_exists_def open_lines_def
      acme_build_prop_def string_ops)

text \<open>
  Claim C3 says that a boot configuration without a line for the bootloader name only
  keeps the bootloader device out of the list. In the code no such line means that
  \<open>bootloader\<close> is never assigned, and the test \<open>if bootloader:\<close> raises
  \<open>UnboundLocalError\<close>: whenever the host properties and the machine id were read,
  \<open>set_props\<close> ends with that exception, whatever else the text contains.
\<close>

theorem missing_bootloader_name_raises:
  assumes "extract_prop (env_files e) ''ro.product.vendor.manufacturer'' = Inr vendor"
    and "extract_prop (env_files e) ''ro.product.vendor.name'' = Inr codename"
    and "read_machine_id (env_files e) = Inr machine_id"
    and "env_files e ''/proc/bootconfig'' = Some (Text boot)"
    and "\<forall>line\<in>set (file_lines boot). \<not> contains line ''androidboot.bootloader''"
  shows "set_props e p = Inl (UnboundLocalError ''bootloader'')"
proof -
  obtain vars where vars: "read_bootconfig (env_files e) = Inr vars" and "fst vars = None"
    using assms(4) bootconfig_no_name [OF assms(5), of "(None, None)"]
    by (simp add: read_bootconfig_def open_lines_def)
  then have "add_bootloader vendor vars (Devices p) = Inl (UnboundLocalError ''bootloader'')"
    by (simp add: add_bootloader_def read_local_def)
  then show ?thesis
    using assms(1-3) vars by (simp add: set_props_def)
qed

theorem missing_bootloader_name_raises_witness:
  "startup serial_only_env = Inl (UnboundLocalError ''bootloader'')"
proof -
  have 1: "extract_prop (env_files serial_only_env) ''ro.product.vendor.manufacturer'' = Inr ''acme''"
    by (simp add: serial_only_env_def acme_files)
  have 2: "extract_prop (env_files serial_only_env) ''ro.product.vendor.name'' = Inr ''widget''"
    by (simp add: serial_only_env_def acme_files)
  have 3: "read_machine_id (env_files serial_only_env) = Inr []"
    by (simp add: serial_only_env_def read_machine_id_def path_exists_def)
  have 4: \<open>env_files serial_only_env ''/proc/bootconfig'' =
             Some (Text ''androidboot.serialno = "123"\<newline>'')\<close>
    by (simp add: serial_only_env_def)
  have 5: \<open>\<forall>line\<in>set (file_lines ''androidboot.serialno = "123"\<newline>'').
             \<not> contains line ''androidboot.bootloader''\<close>
    by (simp add: file_lines_def)
  show ?thesis
    unfolding startup_def by (rule missing_bootloader_name_raises [OF 1 2 3 4 5])
qed


section \<open>The telephony query\<close>

lemma last_value_snoc:
  "last_value key (ms @ [m]) =
     (case map_of (snd m) key of None \<Rightarrow> last_value key ms | Some v \<Rightarrow> Some v)"
  by (auto simp: last_value_def Let_def split: option.splits)

lemma foldl_modem_record:
  "modem_rev (foldl modem_record vars ms) =
     (case last_value ''Revision'' ms of None \<Rightarrow> modem_rev vars | Some v \<Rightarrow> Some v)"
  "modem_ver (foldl modem_record vars ms) =
     (case last_value ''SoftwareVersionNumber'' ms of None \<Rightarrow> modem_ver vars | Some v \<Rightarrow> Some v)"
  "modem_serial (foldl modem_record vars ms) =
     (case last_value ''Serial'' ms of None \<Rightarrow> modem_serial vars | Some v \<Rightarrow> Some v)"
proof (induction ms rule: rev_induct)
  case Nil
  {
    case 1 show ?case by (simp add: last_value_def)
  next
    case 2 show ?case by (simp add: last_value_def)
  next
    case 3 show ?case by (simp add: last_value_def)
  }
next
  case (snoc m ms)
  {
    case 1 show ?case using snoc(1)
      by (simp add: last_value_snoc modem_record_def assign_if_present_def split: option.splits)
  next
    case 2 show ?case using snoc(2)
      by (simp add: last_value_snoc modem_record_def assign_if_present_def split: option.splits)
  next
    case 3 show ?case using snoc(3)
      by (simp add: last_value_snoc modem_record_def assign_if_present_def split: option.splits)
  }
qed

lemma acme_bootloader_added:
  "add_bootloader ''acme'' (Some ''abl'', Some ''123'') (Devices init_props)
     = Inr [arr_bootloader ''acme'' ''abl'' ''123'']"
  by (simp add: add_bootloader_def read_local_def init_props_def)

text \<open>
  A query that raises inside the \<open>try\<close> block (the service is absent, or the call
  fails) is isolated: when the steps before it succeeded with the device list
  \<open>devs1\<close>, \<open>set_props\<close> returns, the sensor probe has run, starting with version
  \<open>1.0\<close>, and the final device list is \<open>devs1\<close> followed by what the sensor step
  adds, with no modem device.
\<close>

lemma telephony_failure_is_isolated:
  assumes "env_ofono e = DBusFailure"
    and "extract_prop (env_files e) ''ro.product.vendor.manufacturer'' = Inr vendor"
    and "extract_prop (env_files e) ''ro.product.vendor.name'' = Inr codename"
    and "read_machine_id (env_files e) = Inr machine_id"
    and "read_bootconfig (env_files e) = Inr vars"
    and "add_bootloader vendor vars (Devices p) = Inr devs1"
  shows "\<exists>st cmds ds. set_props e p = Inr (st, cmds) \<and>
           add_sensors (fst (probe_sensors (env_popen e) ([], []) sensor_hal)) [] = Inr ds \<and>
           Devices st = devs1 @ ds \<and>
           cmds = snd (probe_sensors (env_popen e) ([], []) sensor_hal) \<and>
           take 1 cmds = [sensor_command ''1.0'']"
proof -
  let ?probe = "probe_sensors (env_popen e) ([], []) sensor_hal"
  have modem: "add_modem vendor (query_modems (env_ofono e)) devs1 = Inr devs1"
    using assms(1) by (simp add: query_modems_def add_modem_def)
  obtain ds where ds: "add_sensors (fst ?probe) devs1 = Inr (devs1 @ ds)"
      "add_sensors (fst ?probe) [] = Inr ds"
    using add_sensors_append by blast
  show ?thesis
    using assms(2-6) modem ds probe_sensors_first [of "env_popen e"]
    by (simp add: set_props_def Let_def)
qed

lemma telephony_failure_example:
  "\<exists>st cmds. startup (acme_env ''/vendor/build.prop'') = Inr (st, cmds) \<and>
      length (Devices st) = 1 \<and> take 1 cmds = [sensor_command ''1.0'']"
proof -
  let ?e = "acme_env ''/vendor/build.prop''"
  have p: "''/vendor/build.prop'' \<in> set prop_files" by (simp add: prop_files_def)
  have 1: "env_ofono ?e = DBusFailure" by (simp add: acme_env_def)
  have 7: "add_sensors (fst (probe_sensors (env_popen ?e) ([], []) sensor_hal)) [] = Inr []"
    by (simp add: acme_env_def no_sensor_output add_sensors_def string_ops)
  from telephony_failure_is_isolated [OF 1 acme_extract [OF p] acme_boot(2) [OF p] acme_boot(1) [OF p]
       acme_bootloader_added]
  show ?thesis
    unfolding startup_def using 7 by auto
qed

text \<open>
  When the query succeeds, the locals \<open>modem_rev\<close>, \<open>modem_ver\<close> and
  \<open>modem_serial\<close> are bound only by records that carry the field. The dict literal
  reads them in this order, and the first that no record has bound raises.
\<close>

lemma add_modem_unbound:
  "last_value ''Revision'' modems = None \<Longrightarrow>
     add_modem vendor (query_modems (Modems modems)) devs =
       Inl (UnboundLocalError ''modem_rev'')"
  "last_value ''Revision'' modems \<noteq> None \<Longrightarrow>
   last_value ''SoftwareVersionNumber'' modems = None \<Longrightarrow>
     add_modem vendor (query_modems (Modems modems)) devs =
       Inl (UnboundLocalError ''modem_ver'')"
  "last_value ''Revision'' modems \<noteq> None \<Longrightarrow>
   last_value ''SoftwareVersionNumber'' modems \<noteq> None \<Longrightarrow>
   last_value ''Serial'' modems = None \<Longrightarrow>
     add_modem vendor (query_modems (Modems modems)) devs =
       Inl (UnboundLocalError ''modem_serial'')"
  by (auto simp: add_modem_def query_modems_def foldl_modem_record read_local_def
      no_modem_vars_def)

lemma set_props_modem_error:
  assumes "extract_prop (env_files e) ''ro.product.vendor.manufacturer'' = Inr vendor"
    and "extract_prop (env_files e) ''ro.product.vendor.name'' = Inr codename"
    and "read_machine_id (env_files e) = Inr machine_id"
    and "read_bootconfig (env_files e) = Inr vars"
    and "add_bootloader vendor vars (Devices p) = Inr devs1"
    and "add_modem vendor (query_modems (env_ofono e)) devs1 = Inl err"
  shows "set_props e p = Inl err"
  using assms by (simp add: set_props_def)

text \<open>
  Claim C4 says that every failure of the telephony probe, an empty or field-missing
  list of modem records among them, leaves the device list as it is and raises nothing.
  The \<open>try\<close> block catches what the query raises, but a reply in which no record
  carries \<open>Revision\<close> (the empty list is one) sets \<open>ofono\<close>, and building the
  modem device reads the unbound \<open>modem_rev\<close>: whenever the steps before it
  succeeded, \<open>set_props\<close> ends with \<open>UnboundLocalError\<close>, and the sensor probe
  is never run.
\<close>

theorem modem_reply_without_revision_raises:
  assumes "env_ofono e = Modems modems"
    and "last_value ''Revision'' modems = None"
    and "extract_prop (env_files e) ''ro.product.vendor.manufacturer'' = Inr vendor"
    and "extract_prop (env_files e) ''ro.product.vendor.name'' = Inr codename"
    and "read_machine_id (env_files e) = Inr machine_id"
    and "read_bootconfig (env_files e) = Inr vars"
    and "add_bootloader vendor vars (Devices p) = Inr devs1"
  shows "set_props e p = Inl (UnboundLocalError ''modem_rev'')"
proof -
  have "add_modem vendor (query_modems (env_ofono e)) devs1 =
          Inl (UnboundLocalError ''modem_rev'')"
    using assms(1) add_modem_unbound(1) [OF assms(2)] by simp
  with assms(3-7) show ?thesis by (rule set_props_modem_error)
qed

text \<open>
The theorem at the empty list of modem records, in the end-to-end scenario.
\<close>

theorem modem_reply_without_revision_raises_witness:
  "startup ((acme_env ''/vendor/build.prop'') \<lparr> env_ofono := Modems [] \<rparr>)
     = Inl (UnboundLocalError ''modem_rev'')"
proof -
  let ?e = "(acme_env ''/vendor/build.prop'') \<lparr> env_ofono := Modems [] \<rparr>"
  have p: "''/vendor/build.prop'' \<in> set prop_files" by (simp add: prop_files_def)
  have f: "env_files ?e = env_files (acme_env ''/vendor/build.prop'')" by simp
  have 1: "env_ofono ?e = Modems []" by simp
  have 2: "last_value ''Revision'' [] = None" by (simp add: last_value_def)
  show ?thesis
    unfolding startup_def
    by (rule modem_reply_without_revision_raises [OF 1 2 acme_extract [OF p, folded f]
          acme_boot(2) [OF p, folded f] acme_boot(1) [OF p, folded f] acme_bootloader_added])
qed

text \<open>
  With every field carried by some record, the query adds exactly one modem device: each
  field has the value of the last record that carries it, the version is \<open>1\<close> when
  that value is empty, and the vendor is the capitalized device vendor followed by
  \<open>Modem\<close>, or empty when the device vendor is empty.
\<close>

lemma modem_device_from_last_values:
  assumes "last_value ''Revision'' modems = Some mrev"
    and "last_value ''SoftwareVersionNumber'' modems = Some mver"
    and "last_value ''Serial'' modems = Some mserial"
  shows "add_modem vendor (query_modems (Modems modems)) devs =
     Inr (devs @
       [[(''DeviceId'', VarS ''1''),
         (''Name'', VarS mrev),
         (''Vendor'', VarS (if vendor = [] then [] else capitalize vendor @ '' Modem'')),
         (''Version'', VarS (if mver = [] then ''1'' else mver)),
         (''Plugin'', VarS ''hybris''),
         (''Protocol'', VarS ''hybris''),
         (''Flags'', VarT 2),
         (''Serial'', VarS mserial)]])"
  using assms
  by (simp add: add_modem_def query_modems_def foldl_modem_record read_local_def arr_modem_def)

text \<open>
  Of two records the second has only a revision: the name is the second record's
  revision, the version and the serial are the first record's.
\<close>

lemma two_modems_device:
  "add_modem ''acme'' (query_modems (Modems two_modems)) [] =
     Inr [[(''DeviceId'', VarS ''1''),
           (''Name'', VarS ''MPSS.2''),
           (''Vendor'', VarS ''Acme Modem''),
           (''Version'', VarS ''07''),
           (''Plugin'', VarS ''hybris''),
           (''Protocol'', VarS ''hybris''),
           (''Flags'', VarT 2),
           (''Serial'', VarS ''86'')]]"
proof -
  have 1: "last_value ''Revision'' two_modems = Some ''MPSS.2''"
    by (simp add: last_value_def two_modems_def)
  have 2: "last_value ''SoftwareVersionNumber'' two_modems = Some ''07''"
    by (simp add: last_value_def two_modems_def)
  have 3: "last_value ''Serial'' two_modems = Some ''86''"
    by (simp add: last_value_def two_modems_def)
  from modem_device_from_last_values [OF 1 2 3, of "''acme''" "[]"]
  show ?thesis by (simp add: string_ops)
qed

text \<open>
  Claim C5 says that a successful query emits exactly one modem device if and only if
  at least one record was returned. In the code a record that was returned does not
  suffice: when one of \<open>Revision\<close>, \<open>SoftwareVersionNumber\<close> and \<open>Serial\<close> is
  carried by no record of a non-empty reply, no modem device is emitted and
  \<open>set_props\<close> ends with \<open>UnboundLocalError\<close> for the first local, in the order
  the dict literal reads them, that was never bound.
\<close>

theorem modem_record_missing_field_raises:
  assumes "env_ofono e = Modems modems"
    and "modems \<noteq> []"
    and "last_value ''Revision'' modems = None \<or>
         last_value ''SoftwareVersionNumber'' modems = None \<or>
         last_value ''Serial'' modems = None"
    and "extract_prop (env_files e) ''ro.product.vendor.manufacturer'' = Inr vendor"
    and "extract_prop (env_files e) ''ro.product.vendor.name'' = Inr codename"
    and "read_machine_id (env_files e) = Inr machine_id"
    and "read_bootconfig (env_files e) = Inr vars"
    and "add_bootloader vendor vars (Devices p) = Inr devs1"
  shows "set_props e p =
           Inl (UnboundLocalError
                 (if last_value ''Revision'' modems = None then ''modem_rev''
                  else if last_value ''SoftwareVersionNumber'' modems = None then ''modem_ver''
                  else ''modem_serial''))"
proof -
  have "add_modem vendor (query_modems (env_ofono e)) devs1 =
          Inl (UnboundLocalError
                 (if last_value ''Revision'' modems = None then ''modem_rev''
                  else if last_value ''SoftwareVersionNumber'' modems = None then ''modem_ver''
                  else ''modem_serial''))"
    using assms(1,3) add_modem_unbound [of modems vendor devs1] by auto
  with assms(4-8) show ?thesis by (rule set_props_modem_error)
qed

text \<open>
  The theorem at one record that carries none of the three fields, in the end-to-end
  scenario.
\<close>

theorem modem_record_missing_field_raises_witness:
  "startup ((acme_env ''/vendor/build.prop'')
      \<lparr> env_ofono := Modems [(''/ril_0'', [(''Type'', ''hardware'')])] \<rparr>)
     = Inl (UnboundLocalError ''modem_rev'')"
proof -
  let ?ms = "[(''/ril_0'', [(''Type'', ''hardware'')])]"
  let ?e = "(acme_env ''/vendor/build.prop'') \<lparr> env_ofono := Modems ?ms \<rparr>"
  have p: "''/vendor/build.prop'' \<in> set prop_files" by (simp add: prop_files_def)
  have f: "env_files ?e = env_files (acme_env ''/vendor/build.prop'')" by simp
  have 1: "env_ofono ?e = Modems ?ms" by simp
  have 2: "?ms \<noteq> []" by simp
  have r: "last_value ''Revision'' ?ms = None" by (simp add: last_value_def)
  then have 3: "last_value ''Revision'' ?ms = None \<or>
         last_value ''SoftwareVersionNumber'' ?ms = None \<or>
         last_value ''Serial'' ?ms = None" by (rule disjI1)
  from modem_record_missing_field_raises [OF 1 2 3 acme_extract [OF p, folded f]
          acme_boot(2) [OF p, folded f] acme_boot(1) [OF p, folded f] acme_bootloader_added]
  show ?thesis
    unfolding startup_def by (simp add: r)
qed


section \<open>The shape of every device\<close>











end
